theory Spec2Isabelle
  imports Complex_Main "HOL-Library.Word"
begin

unbundle bit_operations_syntax

section \<open>esputil: the flashing routine of \<^verbatim>\<open>src/esp_flash.cpp\<close>\<close>

text \<open>
  The development embeds \<^verbatim>\<open>do_flash\<close>, the registry \<^verbatim>\<open>FLASH_FN_MAP\<close> and
  \<^verbatim>\<open>main\<close>. The serial loader, the boot commands and the chip helpers live in headers
  (\<^verbatim>\<open>esp_flash/serial_port.hpp\<close>, \<^verbatim>\<open>boot_cmd.hpp\<close>, \<^verbatim>\<open>chip.hpp\<close>) that are not part of
  the source at hand. They enter the model as fields of an environment record; every
  theorem is stated for an arbitrary environment unless it says otherwise.
\<close>

subsection \<open>Machine types, requests and errors\<close>

type_synonym u8 = "8 word"
type_synonym u32 = "32 word"

datatype CommandLineOption = Flash | Info | Monitor | NoOpt

datatype ImageHeaderChipID = ESP32C3

datatype FlashEndOption = Reboot | RunUserCode

text \<open>
  The request descriptors \<^verbatim>\<open>do_flash\<close> constructs, with the arguments it passes:
  \<^verbatim>\<open>FLASH_BEGIN(file_size, packet_size, BLOCK_SIZE, t_flash_offset)\<close> and
  \<^verbatim>\<open>FLASH_DATA<BLOCK_SIZE>(byte_read, sequence, buff)\<close>. The expected response count
  and the timeout given to \<^verbatim>\<open>transceive\<close> are real-time budgets and are not modelled.
\<close>

datatype request =
    SYNC
  | READ_REG u32
  | SPI_ATTACH
  | SPI_SET_PARAMS
  | FLASH_READ_SLOW u32 u32
  | FLASH_BEGIN u32 u32 u32 u32
  | FLASH_DATA u32 u32 "u8 list"
  | FLASH_END FlashEndOption

text \<open>The fields \<^verbatim>\<open>value_\<close> and \<^verbatim>\<open>data_\<close> of what \<^verbatim>\<open>transceive\<close> returns.\<close>

record response =
  resp_value :: u32
  resp_data :: "u8 list"

text \<open>
  Every way the routine can stop early. \<open>InvalidArgument\<close> is the
  \<^verbatim>\<open>std::invalid_argument\<close> of line 38, \<open>AssertionFailure\<close> the \<^verbatim>\<open>assert\<close> of line 53,
  \<open>OutOfRange\<close> the \<^verbatim>\<open>std::out_of_range\<close> of \<^verbatim>\<open>unordered_map::at\<close> (line 146),
  \<open>BadAnyCast\<close> the exception of \<^verbatim>\<open>as<std::string>()\<close> on an option that was not
  given, \<open>InvalidOptionValue\<close> the failure of \<^verbatim>\<open>operator>>\<close> on the command token.
  \<open>ConnectionError\<close>, \<open>TransportError\<close> and \<open>UnknownChip\<close> are what the absent
  collaborators (the \<^verbatim>\<open>Serial\<close> constructor, \<^verbatim>\<open>transceive\<close>, \<^verbatim>\<open>get_chip_info\<close>) may throw;
  \<open>OutOfBounds\<close> stands for indexing \<^verbatim>\<open>data_\<close> past the bytes of a response.
\<close>

datatype error =
    InvalidArgument
  | ConnectionError
  | TransportError
  | UnknownChip
  | AssertionFailure
  | OutOfBounds
  | OutOfRange
  | BadAnyCast
  | InvalidOptionValue

text \<open>
  The environment: the collaborators and inputs that are not in the source file.
  \<^item> \<open>serial_open port baud\<close>: whether constructing \<^verbatim>\<open>Serial<ESPSLIP>\<close> succeeds;
  \<^item> \<open>transceive h req\<close>: the response of the target to \<open>req\<close> after the requests \<open>h\<close>
    were issued, \<open>None\<close> when the exchange throws (timeout, malformed response);
  \<^item> \<open>get_chip_info v\<close>: the chip id and name for an identification value, \<open>None\<close> when
    it throws;
  \<^item> \<open>ESP_MAGIC_NUMBER\<close>: the constant of that name;
  \<^item> \<open>NDEBUG\<close>: whether the translation unit is compiled with assertions disabled;
  \<^item> \<open>open_file path\<close>: the bytes of the file at \<open>path\<close>, \<open>None\<close> when it cannot be
    opened;
  \<^item> \<open>buff_init\<close>: the indeterminate initial contents of the uninitialised
    \<^verbatim>\<open>std::array<char, BLOCK_SIZE> buff\<close>;
  \<^item> \<open>read_hex s\<close>: what \<^verbatim>\<open>ss >> offset\<close> extracts from \<open>s\<close> under \<^verbatim>\<open>std::hex\<close>.
\<close>

record env =
  serial_open :: "string \<Rightarrow> u32 \<Rightarrow> bool"
  transceive :: "request list \<Rightarrow> request \<Rightarrow> response option"
  get_chip_info :: "u32 \<Rightarrow> (u32 \<times> string) option"
  ESP_MAGIC_NUMBER :: u8
  NDEBUG :: bool
  open_file :: "string \<Rightarrow> u8 list option"
  buff_init :: "u8 list"
  read_hex :: "string \<Rightarrow> u32"

subsection \<open>Actions: a request history with early exit\<close>

text \<open>
  An action takes the list of requests issued so far and returns the extended list with
  its outcome: \<open>Some (Inr x)\<close> a value, \<open>Some (Inl e)\<close> an exception, \<open>None\<close> a loop that
  is still running when its iteration budget is used up.
\<close>

type_synonym 'a act = "request list \<Rightarrow> (error + 'a) option \<times> request list"

definition return_act :: "'a \<Rightarrow> 'a act" where
  "return_act x h = (Some (Inr x), h)"

definition throw_act :: "error \<Rightarrow> 'a act" where
  "throw_act e h = (Some (Inl e), h)"

definition bind_act :: "'a act \<Rightarrow> ('a \<Rightarrow> 'b act) \<Rightarrow> 'b act" where
  "bind_act m f h =
     (case m h of
        (Some (Inr x), h') \<Rightarrow> f x h'
      | (Some (Inl e), h') \<Rightarrow> (Some (Inl e), h')
      | (None, h') \<Rightarrow> (None, h'))"

text \<open>\<^verbatim>\<open>loader.transceive(req, ...)\<close>: the request is issued, then the target answers or not.\<close>

definition loader_transceive :: "env \<Rightarrow> request \<Rightarrow> response act" where
  "loader_transceive e req h =
     (case transceive e h req of
        None \<Rightarrow> (Some (Inl TransportError), h @ [req])
      | Some r \<Rightarrow> (Some (Inr r), h @ [req]))"

text \<open>\<^verbatim>\<open>data_[i]\<close> on the bytes of a response.\<close>

definition data_at :: "u8 list \<Rightarrow> nat \<Rightarrow> u8 act" where
  "data_at d i = (if i < length d then return_act (d ! i) else throw_act OutOfBounds)"

subsection \<open>The path extension test\<close>

text \<open>
  \<^verbatim>\<open>std::filesystem::path::extension()\<close> on a POSIX path: the file name is what follows
  the last \<^verbatim>\<open>/\<close>; the extension is the substring of the file name from its rightmost
  period, the period included; it is empty when the file name is \<^verbatim>\<open>.\<close> or \<^verbatim>\<open>..\<close>, has no
  period, or has its only period in front (\<^verbatim>\<open>.profile\<close>). Comparing the result with
  \<^verbatim>\<open>"elf"\<close> compares the two one-element paths, which is string equality.
\<close>

definition filename :: "string \<Rightarrow> string" where
  "filename p = rev (takeWhile (\<lambda>c. c \<noteq> CHR ''/'') (rev p))"

definition extension :: "string \<Rightarrow> string" where
  "extension p =
     (let f = filename p;
          r = rev f;
          e = takeWhile (\<lambda>c. c \<noteq> CHR ''.'') r;
          rest = dropWhile (\<lambda>c. c \<noteq> CHR ''.'') r
      in if f = ''.'' \<or> f = ''..'' then []
         else if rest = [] then []
         else if tl rest = [] then []
         else CHR ''.'' # rev e)"

subsection \<open>The input file stream\<close>

text \<open>
  \<^verbatim>\<open>std::ifstream\<close> as far as \<^verbatim>\<open>do_flash\<close> uses it: the bytes, the read position, and the
  state bits \<^verbatim>\<open>eofbit\<close> and \<^verbatim>\<open>failbit\<close>. A stream whose file could not be opened has
  \<^verbatim>\<open>failbit\<close> set. Every operation first checks the state (the sentry): on a stream
  that is not good it sets \<^verbatim>\<open>failbit\<close> and does nothing else.
\<close>

record ifstream =
  content :: "u8 list"
  pos :: nat
  eofbit :: bool
  failbit :: bool

definition ifstream_open :: "u8 list option \<Rightarrow> ifstream" where
  "ifstream_open f =
     (case f of
        None \<Rightarrow> \<lparr>content = [], pos = 0, eofbit = False, failbit = True\<rparr>
      | Some bs \<Rightarrow> \<lparr>content = bs, pos = 0, eofbit = False, failbit = False\<rparr>)"

definition good :: "ifstream \<Rightarrow> bool" where
  "good s = (\<not> eofbit s \<and> \<not> failbit s)"

definition eof :: "ifstream \<Rightarrow> bool" where
  "eof s = eofbit s"

text \<open>\<^verbatim>\<open>tellg()\<close>: the position, or \<open>-1\<close> on a stream that is not good.\<close>

definition tellg :: "ifstream \<Rightarrow> int \<times> ifstream" where
  "tellg s = (if good s then (int (pos s), s) else (- 1, s\<lparr>failbit := True\<rparr>))"

text \<open>\<^verbatim>\<open>seekg(0, std::ios::end)\<close> and \<^verbatim>\<open>seekg(0)\<close>: both clear \<^verbatim>\<open>eofbit\<close> first.\<close>

definition seekg_end :: "ifstream \<Rightarrow> ifstream" where
  "seekg_end s =
     (let s1 = s\<lparr>eofbit := False\<rparr>
      in if failbit s1 then s1 else s1\<lparr>pos := length (content s1)\<rparr>)"

definition seekg_start :: "ifstream \<Rightarrow> ifstream" where
  "seekg_start s =
     (let s1 = s\<lparr>eofbit := False\<rparr>
      in if failbit s1 then s1 else s1\<lparr>pos := 0\<rparr>)"

text \<open>
  \<^verbatim>\<open>read(buf, n)\<close>: the characters extracted (their number is \<^verbatim>\<open>gcount()\<close>) and the new
  stream. Fewer than \<open>n\<close> characters left sets \<^verbatim>\<open>eofbit\<close> and \<^verbatim>\<open>failbit\<close>; exactly \<open>n\<close>
  left sets neither.
\<close>

definition read :: "ifstream \<Rightarrow> nat \<Rightarrow> u8 list \<times> ifstream" where
  "read s n =
     (if good s then
        (let chunk = take n (drop (pos s) (content s));
             s1 = s\<lparr>pos := pos s + length chunk\<rparr>
         in if length chunk < n then (chunk, s1\<lparr>eofbit := True, failbit := True\<rparr>)
            else (chunk, s1))
      else ([], s\<lparr>failbit := True\<rparr>))"

text \<open>The buffer after a read: the extracted bytes overwrite its front, the rest stays.\<close>

definition store_chunk :: "u8 list \<Rightarrow> u8 list \<Rightarrow> u8 list" where
  "store_chunk chunk buff = chunk @ drop (length chunk) buff"

subsection \<open>The header patch\<close>

text \<open>
  Modelled from the spec: \<^verbatim>\<open>esplink::set_binary_header<ChipID>\<close> is declared in
  \<^verbatim>\<open>esp_flash/chip.hpp\<close>, which is missing. The spec (4.3, 8) has it rewrite, in place
  and without resizing the chunk, the header fields SPI mode, SPI speed code and flash
  size code, so that the values read during the probe step appear verbatim in the
  patched header. The probe step reads the mode from byte 2, the speed from the high
  nibble of byte 3 and the size code from its low nibble (lines 54 to 56); the patch
  writes the same fields at the same places. Writing past the end of a list leaves it
  unchanged (the buffer of \<^verbatim>\<open>do_flash\<close> has 4096 bytes).
\<close>

definition set_binary_header ::
  "ImageHeaderChipID \<Rightarrow> u8 list \<Rightarrow> u8 \<Rightarrow> u8 \<Rightarrow> u8 \<Rightarrow> u8 list" where
  "set_binary_header chip buff spi_mode spi_speed flash_chip_size =
     (buff[2 := spi_mode])[3 := push_bit 4 spi_speed OR flash_chip_size]"

subsection \<open>\<^verbatim>\<open>do_flash\<close>\<close>

definition BLOCK_SIZE :: u32 where
  "BLOCK_SIZE = 4096"

text \<open>Lines 60 to 62: the size of the file as the 32-bit \<^verbatim>\<open>file_size\<close>.\<close>

definition measure_file :: "ifstream \<Rightarrow> u32 \<times> ifstream" where
  "measure_file file0 =
     (let (fstart, file1) = tellg file0;
          file2 = seekg_end file1;
          (fend, file3) = tellg file2
      in (word_of_int (fend - fstart), seekg_start file3))"

text \<open>Line 66: \<^verbatim>\<open>(file_size + BLOCK_SIZE - 1) / BLOCK_SIZE\<close> in 32-bit unsigned arithmetic.\<close>

definition packet_size :: "u32 \<Rightarrow> u32" where
  "packet_size file_size = (file_size + BLOCK_SIZE - 1) div BLOCK_SIZE"

text \<open>
  Lines 72 to 80, the programming loop. The first argument bounds the number of
  iterations observed: the loop runs as long as \<^verbatim>\<open>eofbit\<close> is clear, which on a stream
  that failed to open is forever.
\<close>

fun flash_loop ::
  "nat \<Rightarrow> env \<Rightarrow> ImageHeaderChipID \<Rightarrow> u8 \<times> u8 \<times> u8 \<Rightarrow> ifstream \<Rightarrow> u8 list \<Rightarrow> u32 \<Rightarrow> unit act" where
  "flash_loop 0 e chip g file buff sequence h =
     (if eof file then (Some (Inr ()), h) else (None, h))"
| "flash_loop (Suc n) e chip g file buff sequence h =
     (if eof file then (Some (Inr ()), h)
      else
        (let (chunk, file1) = read file (unat BLOCK_SIZE);
             buff1 = store_chunk chunk buff;
             byte_read = (word_of_nat (length chunk) :: u32);
             buff2 = (if sequence = 0
                      then (case g of (spi_mode, spi_speed, flash_chip_size) \<Rightarrow>
                              set_binary_header chip buff1 spi_mode spi_speed flash_chip_size)
                      else buff1)
         in case loader_transceive e (FLASH_DATA byte_read sequence buff2) h of
              (Some (Inr r), h1) \<Rightarrow> flash_loop n e chip g file1 buff2 (sequence + 1) h1
            | (Some (Inl err), h1) \<Rightarrow> (Some (Inl err), h1)
            | (None, h1) \<Rightarrow> (None, h1)))"

text \<open>Lines 41 to 57: handshake, identification and the probe of the flash geometry.\<close>

definition probe :: "env \<Rightarrow> string \<Rightarrow> u32 \<Rightarrow> (u8 \<times> u8 \<times> u8) act" where
  "probe e t_port t_baud =
     (if \<not> serial_open e t_port t_baud then throw_act ConnectionError
      else
        bind_act (loader_transceive e SYNC) (\<lambda>_.
        bind_act (loader_transceive e (READ_REG 0x40001000)) (\<lambda>chip_id_ret.
        bind_act (case get_chip_info e (resp_value chip_id_ret) of
                    None \<Rightarrow> throw_act UnknownChip
                  | Some info \<Rightarrow> return_act info) (\<lambda>_.
        bind_act (loader_transceive e SPI_ATTACH) (\<lambda>_.
        bind_act (loader_transceive e SPI_SET_PARAMS) (\<lambda>_.
        bind_act (loader_transceive e (FLASH_READ_SLOW 0 16)) (\<lambda>flash_read.
        bind_act (data_at (resp_data flash_read) 0) (\<lambda>magic_number.
        bind_act (if \<not> NDEBUG e \<and> magic_number \<noteq> ESP_MAGIC_NUMBER e
                  then throw_act AssertionFailure else return_act ()) (\<lambda>_.
        bind_act (data_at (resp_data flash_read) 2) (\<lambda>spi_mode.
        bind_act (data_at (resp_data flash_read) 3) (\<lambda>byte3.
        return_act (spi_mode, drop_bit 4 byte3, byte3 AND 0xF))))))))))))"

text \<open>Lines 59 to 82: measuring the file, the begin request, the loop, the end request.\<close>

definition program ::
  "nat \<Rightarrow> env \<Rightarrow> ImageHeaderChipID \<Rightarrow> string \<Rightarrow> u32 \<Rightarrow> u8 \<times> u8 \<times> u8 \<Rightarrow> unit act" where
  "program fuel e chip t_file t_flash_offset g =
     (let (file_size, file) = measure_file (ifstream_open (open_file e t_file))
      in
        bind_act (loader_transceive e
                    (FLASH_BEGIN file_size (packet_size file_size) BLOCK_SIZE t_flash_offset)) (\<lambda>_.
        bind_act (flash_loop fuel e chip g file (buff_init e) 0) (\<lambda>_.
        bind_act (loader_transceive e (FLASH_END Reboot)) (\<lambda>_.
        return_act ()))))"

definition do_flash ::
  "nat \<Rightarrow> env \<Rightarrow> ImageHeaderChipID \<Rightarrow> string \<Rightarrow> string \<Rightarrow> u32 \<Rightarrow> u32 \<Rightarrow> unit act" where
  "do_flash fuel e chip t_file t_port t_baud t_flash_offset =
     (if extension t_file = ''elf'' then throw_act InvalidArgument
      else bind_act (probe e t_port t_baud) (program fuel e chip t_file t_flash_offset))"

subsection \<open>The registry and \<^verbatim>\<open>main\<close>\<close>

text \<open>
  Lines 88 to 92: the registry has the one key \<^verbatim>\<open>esp32c3\<close>, bound to the instance of
  \<^verbatim>\<open>do_flash\<close> for that chip.
\<close>

type_synonym FlashFn = "nat \<Rightarrow> env \<Rightarrow> string \<Rightarrow> string \<Rightarrow> u32 \<Rightarrow> u32 \<Rightarrow> unit act"

definition FLASH_FN_MAP :: "string \<Rightarrow> FlashFn option" where
  "FLASH_FN_MAP = [''esp32c3'' \<mapsto> (\<lambda>fuel e. do_flash fuel e ESP32C3)]"

text \<open>Lines 17 to 32: the extraction of a command token; the flag is \<^verbatim>\<open>failbit\<close>.\<close>

definition parse_command :: "string \<Rightarrow> CommandLineOption \<times> bool" where
  "parse_command token =
     (if token = ''flash'' then (Flash, False)
      else if token = ''info'' then (Info, False)
      else if token = ''monitor'' \<or> token = ''mon'' then (Monitor, False)
      else (NoOpt, True))"

text \<open>
  The variables map after \<^verbatim>\<open>store\<close> and \<^verbatim>\<open>notify\<close>: options that were not given are \<open>None\<close>;
  \<^verbatim>\<open>baud\<close> and \<^verbatim>\<open>chip\<close> carry their defaults (115200 and \<^verbatim>\<open>esp32c3\<close>) when not given.
\<close>

record variables_map =
  vm_help :: bool
  vm_verbose :: bool
  vm_command :: "string option"
  vm_file :: "string option"
  vm_port :: "string option"
  vm_baud :: int
  vm_offset :: "string option"
  vm_flash_param :: "string option"
  vm_chip :: string

datatype exit_status = EXIT_SUCCESS | EXIT_FAILURE

text \<open>
  Lines 94 to 161. A command token that \<^verbatim>\<open>operator>>\<close> rejects makes \<^verbatim>\<open>store\<close> throw. In
  the \<^verbatim>\<open>Flash\<close> case the offset is read first, then the registry is consulted with
  \<^verbatim>\<open>at\<close>, then the file and port arguments are evaluated, and only then the flashing
  function is entered.
\<close>

definition main :: "nat \<Rightarrow> env \<Rightarrow> variables_map \<Rightarrow> exit_status act" where
  "main fuel e vm =
     (case (case vm_command vm of None \<Rightarrow> (NoOpt, False) | Some token \<Rightarrow> parse_command token) of
        (opt, True) \<Rightarrow> throw_act InvalidOptionValue
      | (opt, False) \<Rightarrow>
          if vm_help vm then return_act EXIT_SUCCESS
          else if vm_command vm = None \<or> opt = NoOpt then return_act EXIT_FAILURE
          else
            (case opt of
               Flash \<Rightarrow>
                 (case vm_offset vm of
                    None \<Rightarrow> throw_act BadAnyCast
                  | Some s \<Rightarrow>
                      (let offset = read_hex e s;
                           baud_rate = (word_of_int (vm_baud vm) :: u32)
                       in case FLASH_FN_MAP (vm_chip vm) of
                            None \<Rightarrow> throw_act OutOfRange
                          | Some flash_fn \<Rightarrow>
                              (case vm_file vm of
                                 None \<Rightarrow> throw_act BadAnyCast
                               | Some f \<Rightarrow>
                                   (case vm_port vm of
                                      None \<Rightarrow> throw_act BadAnyCast
                                    | Some p \<Rightarrow>
                                        bind_act (flash_fn fuel e f p baud_rate offset)
                                          (\<lambda>_. return_act EXIT_SUCCESS)))))
             | Info \<Rightarrow> return_act EXIT_SUCCESS
             | Monitor \<Rightarrow> return_act EXIT_SUCCESS
             | NoOpt \<Rightarrow> return_act EXIT_SUCCESS))"

subsection \<open>Reading a request history\<close>

text \<open>The data requests of a history, as (byte count, sequence number, payload).\<close>

fun data_blocks :: "request list \<Rightarrow> (u32 \<times> u32 \<times> u8 list) list" where
  "data_blocks [] = []"
| "data_blocks (FLASH_DATA n sq b # rs) = (n, sq, b) # data_blocks rs"
| "data_blocks (r # rs) = data_blocks rs"

text \<open>The begin requests of a history, as (total size, block count, block size, offset).\<close>

fun begin_requests :: "request list \<Rightarrow> (u32 \<times> u32 \<times> u32 \<times> u32) list" where
  "begin_requests [] = []"
| "begin_requests (FLASH_BEGIN sz cnt bs off # rs) = (sz, cnt, bs, off) # begin_requests rs"
| "begin_requests (r # rs) = begin_requests rs"

definition byte_counts :: "request list \<Rightarrow> nat list" where
  "byte_counts h = map (\<lambda>(n, sq, b). unat n) (data_blocks h)"

definition sequence_numbers :: "request list \<Rightarrow> u32 list" where
  "sequence_numbers h = map (\<lambda>(n, sq, b). sq) (data_blocks h)"

definition payloads :: "request list \<Rightarrow> u8 list list" where
  "payloads h = map (\<lambda>(n, sq, b). b) (data_blocks h)"

text \<open>The five exchanges of handshake, identification and probe, in their order.\<close>

definition probe_requests :: "request list" where
  "probe_requests = [SYNC, READ_REG 0x40001000, SPI_ATTACH, SPI_SET_PARAMS, FLASH_READ_SLOW 0 16]"

text \<open>The geometry that lines 54 to 56 take from the bytes of the probe response.\<close>

definition geometry_of :: "u8 list \<Rightarrow> u8 \<times> u8 \<times> u8" where
  "geometry_of d = (d ! 2, drop_bit 4 (d ! 3), (d ! 3) AND 0xF)"

text \<open>A stream that opened, at read position \<open>p\<close>, with no state bit set.\<close>

definition stream_at :: "u8 list \<Rightarrow> nat \<Rightarrow> ifstream" where
  "stream_at f p = \<lparr>content = f, pos = p, eofbit = False, failbit = False\<rparr>"

text \<open>
  The data requests of the first \<open>n\<close> iterations of the loop when the target answers
  each of them: the loop of \<open>flash_loop\<close> without the device.
\<close>

fun loop_requests ::
  "nat \<Rightarrow> ImageHeaderChipID \<Rightarrow> u8 \<times> u8 \<times> u8 \<Rightarrow> ifstream \<Rightarrow> u8 list \<Rightarrow> u32 \<Rightarrow> request list" where
  "loop_requests 0 chip g file buff sequence = []"
| "loop_requests (Suc n) chip g file buff sequence =
     (if eof file then []
      else
        (let (chunk, file1) = read file (unat BLOCK_SIZE);
             buff1 = store_chunk chunk buff;
             byte_read = (word_of_nat (length chunk) :: u32);
             buff2 = (if sequence = 0
                      then (case g of (spi_mode, spi_speed, flash_chip_size) \<Rightarrow>
                              set_binary_header chip buff1 spi_mode spi_speed flash_chip_size)
                      else buff1)
         in FLASH_DATA byte_read sequence buff2
              # loop_requests n chip g file1 buff2 (sequence + 1)))"

text \<open>The buffer that one iteration of the loop transmits: lines 73 to 77.\<close>

definition block_buffer :: "ImageHeaderChipID \<Rightarrow> u8 \<times> u8 \<times> u8 \<Rightarrow> u8 list \<Rightarrow> u8 list \<Rightarrow> u32 \<Rightarrow> u8 list" where
  "block_buffer chip g chunk buff sq =
     (if sq = 0 then set_binary_header chip (store_chunk chunk buff) (fst g) (fst (snd g)) (snd (snd g))
      else store_chunk chunk buff)"

text \<open>
  The answer of the target to the flash read of the probe step, which is the fifth
  exchange of a run.
\<close>

definition probe_response :: "env \<Rightarrow> response option" where
  "probe_response e =
     transceive e [SYNC, READ_REG 0x40001000, SPI_ATTACH, SPI_SET_PARAMS] (FLASH_READ_SLOW 0 16)"

text \<open>
  Whether a run gets as far as the flash read of the probe step: the port opens, the
  four exchanges before the read are answered, and the chip is known.
\<close>

definition probe_prelude :: "env \<Rightarrow> string \<Rightarrow> u32 \<Rightarrow> bool" where
  "probe_prelude e t_port t_baud =
     (serial_open e t_port t_baud \<and>
      transceive e [] SYNC \<noteq> None \<and>
      (case transceive e [SYNC] (READ_REG 0x40001000) of
         None \<Rightarrow> False
       | Some chip_id_ret \<Rightarrow> get_chip_info e (resp_value chip_id_ret) \<noteq> None) \<and>
      transceive e [SYNC, READ_REG 0x40001000] SPI_ATTACH \<noteq> None \<and>
      transceive e [SYNC, READ_REG 0x40001000, SPI_ATTACH] SPI_SET_PARAMS \<noteq> None)"

text \<open>The begin request for a file with the bytes \<open>f\<close>: lines 62, 66 and 69.\<close>

definition begin_request :: "u8 list \<Rightarrow> u32 \<Rightarrow> request" where
  "begin_request f off =
     FLASH_BEGIN (word_of_nat (length f)) (packet_size (word_of_nat (length f))) BLOCK_SIZE off"

definition begin_block_counts :: "request list \<Rightarrow> nat list" where
  "begin_block_counts h = map (\<lambda>(sz, cnt, bs, off). unat cnt) (begin_requests h)"

definition begin_sizes :: "request list \<Rightarrow> nat list" where
  "begin_sizes h = map (\<lambda>(sz, cnt, bs, off). unat sz) (begin_requests h)"

subsection \<open>A bench set-up\<close>

text \<open>
  A target that answers every request, with an image header at the start of its flash
  (magic number \<open>0xE9\<close>, SPI mode 0, speed code 2, size code 3), and a file system with
  a few images: 10000 bytes, empty, exactly one block, one named like an ELF file, one
  of \<open>2^32 - 1\<close> bytes. No file is at any other path.
\<close>

definition bench_files :: "string \<Rightarrow> u8 list option" where
  "bench_files path =
     (if path = ''firmware.bin'' then Some (replicate 10000 0x55)
      else if path = ''empty.bin'' then Some []
      else if path = ''block.bin'' then Some (replicate 4096 0xAA)
      else if path = ''firmware.elf'' then Some (replicate 100 0x7F)
      else if path = ''huge.bin'' then Some (replicate 4294967295 0)
      else None)"

definition bench_response :: response where
  "bench_response = \<lparr>resp_value = 0x1B31506F, resp_data = [0xE9, 0x03, 0x00, 0x23] @ replicate 12 0\<rparr>"

definition bench :: env where
  "bench =
     \<lparr>serial_open = (\<lambda>port baud. True),
      transceive = (\<lambda>h req. Some bench_response),
      get_chip_info = (\<lambda>v. Some (v, ''ESP32-C3'')),
      ESP_MAGIC_NUMBER = 0xE9,
      NDEBUG = False,
      open_file = bench_files,
      buff_init = replicate 4096 0,
      read_hex = (\<lambda>s. 0x10000)\<rparr>"

text \<open>The same bench with a target whose flash is erased: every byte reads \<open>0xFF\<close>.\<close>

definition bench_blank :: env where
  "bench_blank =
     bench\<lparr>transceive := (\<lambda>h req. Some \<lparr>resp_value = 0x1B31506F, resp_data = replicate 16 0xFF\<rparr>)\<rparr>"

text \<open>A command line that asks to flash with a chip tag the registry does not have.\<close>

definition bench_vm :: variables_map where
  "bench_vm =
     \<lparr>vm_help = False, vm_verbose = False, vm_command = Some ''flash'',
      vm_file = Some ''firmware.bin'', vm_port = Some ''/dev/ttyUSB0'', vm_baud = 115200,
      vm_offset = Some ''0x10000'', vm_flash_param = None, vm_chip = ''esp8266''\<rparr>"

section \<open>Properties\<close>

subsection \<open>The loop, one iteration at a time\<close>

declare flash_loop.simps(2) [simp del] loop_requests.simps(2) [simp del]

lemma unat_BLOCK_SIZE: "unat BLOCK_SIZE = 4096"
  by (simp add: BLOCK_SIZE_def)

lemma read_stream_at:
  "read (stream_at f p) n =
     (take n (drop p f),
      if length f - p < n
      then \<lparr>content = f, pos = p + min (length f - p) n, eofbit = True, failbit = True\<rparr>
      else stream_at f (p + n))"
  by (simp add: read_def stream_at_def good_def Let_def min_def)

lemma eof_stream_at: "\<not> eof (stream_at f p)"
  by (simp add: eof_def stream_at_def)

lemma eof_record [simp]: "eof \<lparr>content = c, pos = q, eofbit = True, failbit = b\<rparr>"
  by (simp add: eof_def)

lemma loop_requests_eof: "eof fs \<Longrightarrow> loop_requests n chip g fs buff sq = []"
  by (cases n) (simp_all add: loop_requests.simps(2))

lemma flash_loop_eof: "eof fs \<Longrightarrow> flash_loop n e chip g fs buff sq h = (Some (Inr ()), h)"
  by (cases n) (simp_all add: flash_loop.simps(2))

lemma loop_requests_Suc:
  "\<not> eof fs \<Longrightarrow> loop_requests (Suc n) chip g fs buff sq =
     FLASH_DATA (word_of_nat (length (fst (read fs 4096)))) sq (block_buffer chip g (fst (read fs 4096)) buff sq)
       # loop_requests n chip g (snd (read fs 4096)) (block_buffer chip g (fst (read fs 4096)) buff sq) (sq + 1)"
  by (simp add: loop_requests.simps(2) Let_def block_buffer_def unat_BLOCK_SIZE split: prod.splits)

lemma flash_loop_Suc:
  "\<not> eof fs \<Longrightarrow> flash_loop (Suc n) e chip g fs buff sq h =
     (let req = FLASH_DATA (word_of_nat (length (fst (read fs 4096)))) sq (block_buffer chip g (fst (read fs 4096)) buff sq)
      in case transceive e h req of
           None \<Rightarrow> (Some (Inl TransportError), h @ [req])
         | Some r \<Rightarrow> flash_loop n e chip g (snd (read fs 4096)) (block_buffer chip g (fst (read fs 4096)) buff sq) (sq + 1) (h @ [req]))"
  by (simp add: flash_loop.simps(2) Let_def block_buffer_def unat_BLOCK_SIZE loader_transceive_def split: prod.splits option.splits)

lemma div_block_step: "4096 \<le> (a::nat) \<Longrightarrow> a div 4096 = Suc ((a - 4096) div 4096)"
  by (simp add: le_div_geq)

text \<open>
  Whatever the target does, the history after the loop is the history before it followed
  by the data requests of some number of iterations.
\<close>

lemma flash_loop_prefix:
  "\<exists>k\<le>n. snd (flash_loop n e chip g fs buff sq h) = h @ loop_requests k chip g fs buff sq"
proof (induction n arbitrary: fs buff sq h)
  case 0
  then show ?case by simp
next
  case (Suc n)
  show ?case
  proof (cases "eof fs")
    case True
    then have "snd (flash_loop (Suc n) e chip g fs buff sq h) = h @ loop_requests 0 chip g fs buff sq"
      by (simp add: flash_loop_eof)
    then show ?thesis by blast
  next
    case False
    let ?c = "fst (read fs 4096)"
    let ?b = "block_buffer chip g ?c buff sq"
    let ?req = "FLASH_DATA (word_of_nat (length ?c)) sq ?b"
    show ?thesis
    proof (cases "transceive e h ?req")
      case None
      with False have "snd (flash_loop (Suc n) e chip g fs buff sq h) = h @ loop_requests (Suc 0) chip g fs buff sq"
        by (simp add: flash_loop_Suc loop_requests_Suc)
      then show ?thesis by blast
    next
      case (Some r)
      from Suc.IH [of "snd (read fs 4096)" ?b "sq + 1" "h @ [?req]"] obtain k where k: "k \<le> n"
        "snd (flash_loop n e chip g (snd (read fs 4096)) ?b (sq + 1) (h @ [?req]))
           = (h @ [?req]) @ loop_requests k chip g (snd (read fs 4096)) ?b (sq + 1)"
        by blast
      with False Some have "snd (flash_loop (Suc n) e chip g fs buff sq h) = h @ loop_requests (Suc k) chip g fs buff sq"
        by (simp add: flash_loop_Suc loop_requests_Suc)
      with k(1) show ?thesis by (meson Suc_le_mono)
    qed
  qed
qed

text \<open>
  A loop that finished on an opened stream has run through the whole file, and issued
  the data requests of all its iterations.
\<close>

lemma flash_loop_done:
  "flash_loop n e chip g (stream_at f p) buff sq h = (Some (Inr ()), h') \<Longrightarrow>
     (length f - p) div 4096 < n \<and> h' = h @ loop_requests n chip g (stream_at f p) buff sq"
proof (induction n arbitrary: p buff sq h)
  case 0
  then show ?case by (simp add: eof_stream_at)
next
  case (Suc n)
  let ?c = "take 4096 (drop p f)"
  let ?b = "block_buffer chip g ?c buff sq"
  let ?req = "FLASH_DATA (word_of_nat (length ?c)) sq ?b"
  have "transceive e h ?req \<noteq> None"
  proof
    assume "transceive e h ?req = None"
    with Suc.prems show False
      by (simp add: flash_loop_Suc eof_stream_at read_stream_at)
  qed
  then obtain r where r: "transceive e h ?req = Some r" by blast
  show ?case
  proof (cases "length f - p < 4096")
    case True
    with Suc.prems r show ?thesis
      by (simp add: flash_loop_Suc loop_requests_Suc eof_stream_at read_stream_at flash_loop_eof loop_requests_eof)
  next
    case False
    with Suc.prems r have "flash_loop n e chip g (stream_at f (p + 4096)) ?b (sq + 1) (h @ [?req]) = (Some (Inr ()), h')"
      by (simp add: flash_loop_Suc eof_stream_at read_stream_at)
    from Suc.IH [OF this] False div_block_step [of "length f - p"] show ?thesis
      by (simp add: loop_requests_Suc eof_stream_at read_stream_at)
  qed
qed

text \<open>
  With a target that answers every request, the loop on an opened stream finishes as
  soon as the budget exceeds the number of full blocks left.
\<close>

lemma flash_loop_completes:
  assumes "\<And>h r. transceive e h r \<noteq> None"
  shows "(length f - p) div 4096 < n \<Longrightarrow>
     flash_loop n e chip g (stream_at f p) buff sq h = (Some (Inr ()), h @ loop_requests n chip g (stream_at f p) buff sq)"
proof (induction n arbitrary: p buff sq h)
  case 0
  then show ?case by simp
next
  case (Suc n)
  let ?c = "take 4096 (drop p f)"
  let ?b = "block_buffer chip g ?c buff sq"
  let ?req = "FLASH_DATA (word_of_nat (length ?c)) sq ?b"
  from assms have "transceive e h ?req \<noteq> None" .
  then obtain r where r: "transceive e h ?req = Some r" by blast
  show ?case
  proof (cases "length f - p < 4096")
    case True
    with r show ?thesis
      by (simp add: flash_loop_Suc loop_requests_Suc eof_stream_at read_stream_at flash_loop_eof loop_requests_eof)
  next
    case False
    with Suc.prems div_block_step [of "length f - p"] have "(length f - (p + 4096)) div 4096 < n" by simp
    from Suc.IH [OF this] False r show ?thesis
      by (simp add: flash_loop_Suc loop_requests_Suc eof_stream_at read_stream_at)
  qed
qed


text \<open>
  On a stream that failed to open the loop never finishes: \<^verbatim>\<open>eofbit\<close> stays clear, so
  whatever the iteration budget the run is still going or has stopped on a transport
  error.
\<close>

lemma flash_loop_failed_stream:
  "fst (flash_loop n e chip g \<lparr>content = c, pos = q, eofbit = False, failbit = True\<rparr> buff sq h)
     \<noteq> Some (Inr ())"
proof (induction n arbitrary: buff sq h)
  case 0
  then show ?case by (simp add: eof_def)
next
  case (Suc n)
  let ?failed = "\<lparr>content = c, pos = q, eofbit = False, failbit = True\<rparr>"
  have "read ?failed 4096 = ([], ?failed)"
    by (simp add: read_def good_def)
  moreover have "\<not> eof ?failed"
    by (simp add: eof_def)
  ultimately show ?case
    using Suc.IH by (simp add: flash_loop_Suc Let_def split: option.splits)
qed

subsection \<open>The data requests of the loop\<close>

lemma data_blocks_append: "data_blocks (a @ b) = data_blocks a @ data_blocks b"
  by (induction a rule: data_blocks.induct) simp_all

lemma begin_requests_append: "begin_requests (a @ b) = begin_requests a @ begin_requests b"
  by (induction a rule: begin_requests.induct) simp_all

lemma begin_requests_loop: "begin_requests (loop_requests n chip g fs buff sq) = []"
proof (induction n arbitrary: fs buff sq)
  case 0
  then show ?case by simp
next
  case (Suc n)
  then show ?case by (cases "eof fs") (simp_all add: loop_requests_eof loop_requests_Suc)
qed

lemma length_data_blocks_loop:
  "length (data_blocks (loop_requests n chip g fs buff sq)) = length (loop_requests n chip g fs buff sq)"
proof (induction n arbitrary: fs buff sq)
  case 0
  then show ?case by simp
next
  case (Suc n)
  then show ?case by (cases "eof fs") (simp_all add: loop_requests_eof loop_requests_Suc)
qed



lemma byte_counts_loop:
  "(length f - p) div 4096 < n \<Longrightarrow>
     sum_list (byte_counts (loop_requests n chip g (stream_at f p) buff sq)) = length f - p"
proof (induction n arbitrary: p buff sq)
  case 0
  then show ?case by simp
next
  case (Suc n)
  show ?case
  proof (cases "length f - p < 4096")
    case True
    then have "unat (word_of_nat (length f - p) :: u32) = length f - p"
      by (simp add: unat_of_nat)
    with True show ?thesis
      by (simp add: loop_requests_Suc eof_stream_at read_stream_at loop_requests_eof byte_counts_def)
  next
    case False
    with Suc.prems div_block_step [of "length f - p"] have "(length f - (p + 4096)) div 4096 < n" by simp
    from Suc.IH [OF this] False show ?thesis
      by (simp add: loop_requests_Suc eof_stream_at read_stream_at byte_counts_def)
  qed
qed


subsection \<open>The probe phase\<close>

lemmas act_defs = bind_act_def return_act_def throw_act_def loader_transceive_def data_at_def

lemma probe_success:
  assumes "probe e port baud [] = (Some (Inr g), h)"
  shows "h = probe_requests \<and>
         (\<exists>r. probe_response e = Some r \<and> 4 \<le> length (resp_data r) \<and> g = geometry_of (resp_data r) \<and>
              (NDEBUG e \<or> resp_data r ! 0 = ESP_MAGIC_NUMBER e))"
  using assms
  by (auto simp: probe_def act_defs probe_requests_def probe_response_def geometry_of_def
           split: if_splits option.splits)

lemma probe_completes:
  assumes dev: "\<And>h r. transceive e h r \<noteq> None" and "serial_open e port baud"
    and chip: "\<And>v. get_chip_info e v \<noteq> None"
    and "probe_response e = Some r" and "4 \<le> length (resp_data r)"
    and "NDEBUG e \<or> resp_data r ! 0 = ESP_MAGIC_NUMBER e"
  shows "probe e port baud [] = (Some (Inr (geometry_of (resp_data r))), probe_requests)"
proof -
  obtain r1 where r1: "transceive e [] SYNC = Some r1"
    using dev [of "[]" SYNC] by blast
  obtain r2 where r2: "transceive e [SYNC] (READ_REG 0x40001000) = Some r2"
    using dev [of "[SYNC]" "READ_REG 0x40001000"] by blast
  obtain info where info: "get_chip_info e (resp_value r2) = Some info"
    using chip [of "resp_value r2"] by blast
  obtain r3 where r3: "transceive e [SYNC, READ_REG 0x40001000] SPI_ATTACH = Some r3"
    using dev [of "[SYNC, READ_REG 0x40001000]" SPI_ATTACH] by blast
  obtain r4 where r4: "transceive e [SYNC, READ_REG 0x40001000, SPI_ATTACH] SPI_SET_PARAMS = Some r4"
    using dev [of "[SYNC, READ_REG 0x40001000, SPI_ATTACH]" SPI_SET_PARAMS] by blast
  from assms(2,4,5,6) r1 r2 info r3 r4 show ?thesis
    by (auto simp: probe_def act_defs probe_requests_def probe_response_def geometry_of_def)
qed

lemma probe_no_data: "data_blocks (snd (probe e port baud [])) = []"
  by (auto simp: probe_def act_defs split: if_splits option.splits)

lemma probe_no_begin: "begin_requests (snd (probe e port baud [])) = []"
  by (auto simp: probe_def act_defs split: if_splits option.splits)


subsection \<open>The programming phase\<close>

lemma measure_file_open:
  "measure_file (ifstream_open (Some f)) = (word_of_nat (length f), stream_at f 0)"
  by (simp add: measure_file_def ifstream_open_def tellg_def good_def seekg_end_def seekg_start_def
        stream_at_def Let_def)

lemma measure_file_failed:
  "measure_file (ifstream_open None) = (0, \<lparr>content = [], pos = 0, eofbit = False, failbit = True\<rparr>)"
  by (simp add: measure_file_def ifstream_open_def tellg_def good_def seekg_end_def seekg_start_def
        Let_def)

lemma program_unfold:
  "program n e chip path off g h =
     (let ms = measure_file (ifstream_open (open_file e path));
          req = FLASH_BEGIN (fst ms) (packet_size (fst ms)) BLOCK_SIZE off
      in case transceive e h req of
           None \<Rightarrow> (Some (Inl TransportError), h @ [req])
         | Some r \<Rightarrow>
             (case flash_loop n e chip g (snd ms) (buff_init e) 0 (h @ [req]) of
                (Some (Inr u), h1) \<Rightarrow>
                  (case transceive e h1 (FLASH_END Reboot) of
                     None \<Rightarrow> (Some (Inl TransportError), h1 @ [FLASH_END Reboot])
                   | Some r' \<Rightarrow> (Some (Inr ()), h1 @ [FLASH_END Reboot]))
              | (Some (Inl err), h1) \<Rightarrow> (Some (Inl err), h1)
              | (None, h1) \<Rightarrow> (None, h1)))"
  by (cases "measure_file (ifstream_open (open_file e path))")
     (auto simp: program_def act_defs Let_def split: option.splits sum.splits prod.splits)

lemma program_done:
  assumes "program n e chip path off g h = (Some (Inr ()), h')" and "open_file e path = Some f"
  shows "length f div 4096 < n \<and>
         h' = h @ begin_request f off # loop_requests n chip g (stream_at f 0) (buff_init e) 0 @ [FLASH_END Reboot]"
proof -
  let ?req = "begin_request f off"
  obtain res h1 where loop: "flash_loop n e chip g (stream_at f 0) (buff_init e) 0 (h @ [?req]) = (res, h1)"
    by (cases "flash_loop n e chip g (stream_at f 0) (buff_init e) 0 (h @ [?req])")
  from assms loop have "res = Some (Inr ())" and h': "h' = h1 @ [FLASH_END Reboot]"
    by (auto simp: program_unfold measure_file_open begin_request_def Let_def
             split: option.splits sum.splits)
  with loop flash_loop_done [of n e chip g f 0 "buff_init e" 0 "h @ [?req]" h1]
  show ?thesis by simp
qed

lemma program_completes:
  assumes dev: "\<And>h r. transceive e h r \<noteq> None" and "open_file e path = Some f" and "length f div 4096 < n"
  shows "program n e chip path off g h =
           (Some (Inr ()),
            h @ begin_request f off # loop_requests n chip g (stream_at f 0) (buff_init e) 0 @ [FLASH_END Reboot])"
proof -
  let ?req = "begin_request f off"
  let ?h1 = "(h @ [?req]) @ loop_requests n chip g (stream_at f 0) (buff_init e) 0"
  obtain r where r: "transceive e h ?req = Some r"
    using dev [of h ?req] by blast
  obtain r' where r': "transceive e ?h1 (FLASH_END Reboot) = Some r'"
    using dev [of ?h1 "FLASH_END Reboot"] by blast
  from assms(3) have "flash_loop n e chip g (stream_at f 0) (buff_init e) 0 (h @ [?req]) = (Some (Inr ()), ?h1)"
    using flash_loop_completes [OF dev, of f 0 n chip g "buff_init e" 0 "h @ [?req]"] by simp
  with assms(2) r r' show ?thesis
    by (simp add: program_unfold measure_file_open begin_request_def Let_def)
qed

lemma program_begins:
  "\<exists>rest. snd (program n e chip path off g h) =
      h @ FLASH_BEGIN (fst (measure_file (ifstream_open (open_file e path))))
             (packet_size (fst (measure_file (ifstream_open (open_file e path))))) BLOCK_SIZE off # rest"
proof -
  let ?ms = "measure_file (ifstream_open (open_file e path))"
  let ?req = "FLASH_BEGIN (fst ?ms) (packet_size (fst ?ms)) BLOCK_SIZE off"
  obtain k where k: "snd (flash_loop n e chip g (snd ?ms) (buff_init e) 0 (h @ [?req]))
       = (h @ [?req]) @ loop_requests k chip g (snd ?ms) (buff_init e) 0"
    using flash_loop_prefix [of n e chip g "snd ?ms" "buff_init e" 0 "h @ [?req]"] by blast
  obtain res h1 where loop: "flash_loop n e chip g (snd ?ms) (buff_init e) 0 (h @ [?req]) = (res, h1)"
    by (cases "flash_loop n e chip g (snd ?ms) (buff_init e) 0 (h @ [?req])")
  with k have h1: "h1 = h @ ?req # loop_requests k chip g (snd ?ms) (buff_init e) 0" by simp
  show ?thesis
    by (simp add: program_unfold Let_def loop h1 split: option.splits sum.splits)
qed


subsection \<open>The whole routine\<close>

text \<open>
  An extension is empty or starts with a period: the guard of line 37 is dead.
\<close>

lemma extension_not_elf: "extension p \<noteq> ''elf''"
  by (simp add: extension_def Let_def)

lemma do_flash_unfold:
  "do_flash n e chip path port baud off h =
     (case probe e port baud h of
        (Some (Inr g), h1) \<Rightarrow> program n e chip path off g h1
      | (Some (Inl err), h1) \<Rightarrow> (Some (Inl err), h1)
      | (None, h1) \<Rightarrow> (None, h1))"
  by (simp add: do_flash_def extension_not_elf bind_act_def)

text \<open>
  The history of a completed run on a file with the bytes \<open>f\<close>.
\<close>

lemma do_flash_done:
  assumes "do_flash n e chip path port baud off [] = (Some (Inr ()), tr)" and "open_file e path = Some f"
  shows "\<exists>r. probe_response e = Some r \<and> 4 \<le> length (resp_data r) \<and>
             (NDEBUG e \<or> resp_data r ! 0 = ESP_MAGIC_NUMBER e) \<and>
             length f div 4096 < n \<and>
             tr = probe_requests @ begin_request f off
                    # loop_requests n chip (geometry_of (resp_data r)) (stream_at f 0) (buff_init e) 0
                    @ [FLASH_END Reboot]"
proof -
  obtain res h1 where p: "probe e port baud [] = (res, h1)"
    by (cases "probe e port baud []")
  with assms(1) obtain g where g: "res = Some (Inr g)" and prog: "program n e chip path off g h1 = (Some (Inr ()), tr)"
    by (auto simp: do_flash_unfold split: option.splits sum.splits)
  from probe_success [of e port baud g h1] p g obtain r where
    r: "h1 = probe_requests" "probe_response e = Some r" "4 \<le> length (resp_data r)"
       "g = geometry_of (resp_data r)" "NDEBUG e \<or> resp_data r ! 0 = ESP_MAGIC_NUMBER e"
    by blast
  from program_done [OF prog assms(2)] r show ?thesis by blast
qed

text \<open>
  A run completes when the port opens, the target answers every request, the chip is
  known, the probe response has its four bytes and passes the assertion, the file
  opens and the budget exceeds the number of full blocks.
\<close>

lemma do_flash_completes:
  assumes dev: "\<And>h r. transceive e h r \<noteq> None" and "serial_open e port baud"
    and chip: "\<And>v. get_chip_info e v \<noteq> None"
    and "probe_response e = Some r" and "4 \<le> length (resp_data r)"
    and "NDEBUG e \<or> resp_data r ! 0 = ESP_MAGIC_NUMBER e"
    and "open_file e path = Some f" and "length f div 4096 < n"
  shows "do_flash n e chip path port baud off [] =
           (Some (Inr ()),
            probe_requests @ begin_request f off
              # loop_requests n chip (geometry_of (resp_data r)) (stream_at f 0) (buff_init e) 0
              @ [FLASH_END Reboot])"
  using probe_completes [OF dev assms(2) chip assms(4,5,6)]
        program_completes [OF dev assms(7,8), of chip off "geometry_of (resp_data r)" probe_requests]
  by (simp add: do_flash_unfold)


subsection \<open>Runs on the bench\<close>

lemma geometry_bench: "geometry_of (resp_data bench_response) = (0, 2, 3)"
  by (simp add: geometry_of_def bench_response_def)

lemma bench_run:
  assumes "bench_files path = Some f" and "length f div 4096 < n"
  shows "do_flash n bench chip path port baud off [] =
           (Some (Inr ()),
            probe_requests @ begin_request f off
              # loop_requests n chip (0, 2, 3) (stream_at f 0) (replicate 4096 0) 0
              @ [FLASH_END Reboot])"
proof -
  have "probe_response bench = Some bench_response"
    by (simp add: probe_response_def bench_def)
  moreover have "4 \<le> length (resp_data bench_response)"
    by (simp add: bench_response_def)
  moreover have "NDEBUG bench \<or> resp_data bench_response ! 0 = ESP_MAGIC_NUMBER bench"
    by (simp add: bench_response_def bench_def)
  moreover have "open_file bench path = Some f"
    using assms(1) by (simp add: bench_def)
  ultimately show ?thesis
    using do_flash_completes [of bench port baud bench_response path f n chip off] assms(2)
    by (simp add: bench_def geometry_bench)
qed

lemma probe_bench: "probe bench port baud [] = (Some (Inr (0, 2, 3)), probe_requests)"
proof -
  have "probe_response bench = Some bench_response"
    by (simp add: probe_response_def bench_def)
  moreover have "4 \<le> length (resp_data bench_response)"
    by (simp add: bench_response_def)
  moreover have "NDEBUG bench \<or> resp_data bench_response ! 0 = ESP_MAGIC_NUMBER bench"
    by (simp add: bench_response_def bench_def)
  ultimately show ?thesis
    using probe_completes [of bench port baud bench_response]
    by (simp add: bench_def geometry_bench)
qed

subsection \<open>Block count and byte counts\<close>

lemma unat_word_of_nat_u32: "n < 4294967296 \<Longrightarrow> unat (word_of_nat n :: u32) = n"
  by (simp add: unat_of_nat)

lemma unat_packet_size:
  assumes "S \<le> 4294963200"
  shows "unat (packet_size (word_of_nat S)) = (S + 4095) div 4096"
proof -
  have eq: "(word_of_nat S + 4096 - 1 :: u32) = word_of_nat (S + 4095)"
    by simp
  from assms have "S + 4095 < 4294967296" by simp
  then have u: "unat (word_of_nat (S + 4095) :: u32) = S + 4095"
    by (rule unat_word_of_nat_u32)
  have b: "unat (4096 :: u32) = 4096"
    by simp
  show ?thesis
    by (simp only: packet_size_def BLOCK_SIZE_def unat_div eq u b)
qed

lemma ceiling_blocks: "nat \<lceil>real S / 4096\<rceil> = (S + 4095) div 4096"
proof -
  define N where "N = (S + 4095) div 4096"
  have "N * 4096 + (S + 4095) mod 4096 = S + 4095"
    unfolding N_def by (rule div_mult_mod_eq)
  moreover have "(S + 4095) mod 4096 < 4096"
    by simp
  ultimately have "S \<le> 4096 * N" and "4096 * N < S + 4096"
    by linarith+
  then have "real S \<le> real (4096 * N)" and "real (4096 * N) < real (S + 4096)"
    by (simp_all only: of_nat_le_iff of_nat_less_iff)
  then have up: "real S / 4096 \<le> real N" and low: "real N - 1 < real S / 4096"
    by simp_all
  have "\<lceil>real S / 4096\<rceil> = int N"
  proof (rule ceiling_unique)
    from low show "real_of_int (int N) - 1 < real S / 4096" by simp
    from up show "real S / 4096 \<le> real_of_int (int N)" by simp
  qed
  then show ?thesis by (simp add: N_def)
qed

lemma data_blocks_probe_requests: "data_blocks probe_requests = []"
  by (simp add: probe_requests_def)

lemma begin_requests_probe_requests: "begin_requests probe_requests = []"
  by (simp add: probe_requests_def)

lemma data_blocks_run:
  "data_blocks (probe_requests @ begin_request f off # loop_requests n chip g fs buff sq @ [FLASH_END Reboot])
     = data_blocks (loop_requests n chip g fs buff sq)"
  by (simp add: data_blocks_append data_blocks_probe_requests begin_request_def)

lemma begin_requests_run:
  "begin_requests (probe_requests @ begin_request f off # loop_requests n chip g fs buff sq @ [FLASH_END Reboot])
     = [(word_of_nat (length f), packet_size (word_of_nat (length f)), BLOCK_SIZE, off)]"
  by (simp add: begin_requests_append begin_requests_probe_requests begin_request_def begin_requests_loop)

subsection \<open>Runs that need not complete\<close>

text \<open>
  With budget for at least one iteration, the loop on a stream that is not at its end
  issues at least its first data request, answered or not.
\<close>

lemma flash_loop_prefix_pos:
  assumes "\<not> eof fs"
  shows "\<exists>k. 0 < k \<and> k \<le> Suc m \<and>
           snd (flash_loop (Suc m) e chip g fs buff sq h) = h @ loop_requests k chip g fs buff sq"
proof -
  let ?c = "fst (read fs 4096)"
  let ?b = "block_buffer chip g ?c buff sq"
  let ?req = "FLASH_DATA (word_of_nat (length ?c)) sq ?b"
  show ?thesis
  proof (cases "transceive e h ?req")
    case None
    with assms have "snd (flash_loop (Suc m) e chip g fs buff sq h) = h @ loop_requests (Suc 0) chip g fs buff sq"
      by (simp add: flash_loop_Suc loop_requests_Suc)
    then show ?thesis by (metis Suc_le_mono le0 zero_less_Suc)
  next
    case (Some r)
    from flash_loop_prefix [of m e chip g "snd (read fs 4096)" ?b "sq + 1" "h @ [?req]"]
    obtain k where k: "k \<le> m"
      "snd (flash_loop m e chip g (snd (read fs 4096)) ?b (sq + 1) (h @ [?req]))
         = (h @ [?req]) @ loop_requests k chip g (snd (read fs 4096)) ?b (sq + 1)"
      by blast
    with assms Some have "snd (flash_loop (Suc m) e chip g fs buff sq h) = h @ loop_requests (Suc k) chip g fs buff sq"
      by (simp add: flash_loop_Suc loop_requests_Suc)
    with k(1) show ?thesis by (metis Suc_le_mono zero_less_Suc)
  qed
qed

text \<open>
  The history of the programming phase on a file that opened, whatever the target does
  and whatever the budget: the begin request, the data requests of some number \<open>k\<close> of
  iterations, and the end request if the loop finished. At least one data request is
  issued once the begin request is answered and the budget is not 0.
\<close>

lemma program_requests:
  assumes "open_file e path = Some f"
  shows "\<exists>k tail. k \<le> n \<and> (tail = [] \<or> tail = [FLASH_END Reboot]) \<and>
           snd (program n e chip path off g h) =
             h @ begin_request f off # loop_requests k chip g (stream_at f 0) (buff_init e) 0 @ tail \<and>
           (transceive e h (begin_request f off) \<noteq> None \<and> 0 < n \<longrightarrow> 0 < k)"
proof (cases "transceive e h (begin_request f off)")
  case None
  with assms have "snd (program n e chip path off g h) =
      h @ begin_request f off # loop_requests 0 chip g (stream_at f 0) (buff_init e) 0 @ []"
    by (simp add: program_unfold measure_file_open begin_request_def Let_def)
  with None show ?thesis by (metis le0 option.distinct(1))
next
  case (Some r)
  let ?h = "h @ [begin_request f off]"
  have "\<exists>k. k \<le> n \<and> (0 < n \<longrightarrow> 0 < k) \<and>
          snd (flash_loop n e chip g (stream_at f 0) (buff_init e) 0 ?h) =
            ?h @ loop_requests k chip g (stream_at f 0) (buff_init e) 0"
  proof (cases n)
    case 0
    then show ?thesis by (simp add: eof_stream_at)
  next
    case (Suc m)
    from flash_loop_prefix_pos [OF eof_stream_at, of m e chip g f 0 "buff_init e" 0 ?h] Suc
    show ?thesis by auto
  qed
  then obtain k where k: "k \<le> n" "0 < n \<longrightarrow> 0 < k"
    "snd (flash_loop n e chip g (stream_at f 0) (buff_init e) 0 ?h) =
       ?h @ loop_requests k chip g (stream_at f 0) (buff_init e) 0"
    by blast
  obtain res h1 where loop: "flash_loop n e chip g (stream_at f 0) (buff_init e) 0 ?h = (res, h1)"
    by (cases "flash_loop n e chip g (stream_at f 0) (buff_init e) 0 ?h")
  with k(3) have h1: "h1 = h @ begin_request f off # loop_requests k chip g (stream_at f 0) (buff_init e) 0"
    by simp
  from assms Some loop have
    "snd (program n e chip path off g h) = h1 @ [] \<or> snd (program n e chip path off g h) = h1 @ [FLASH_END Reboot]"
    by (auto simp: program_unfold measure_file_open begin_request_def Let_def
             split: option.splits sum.splits)
  with h1 k(1,2) show ?thesis
    by (metis append.assoc append_Cons)
qed

lemma do_flash_probe_ok:
  "fst (probe e port baud []) = Some (Inr g) \<Longrightarrow>
     do_flash n e chip path port baud off [] = program n e chip path off g probe_requests"
proof -
  assume a: "fst (probe e port baud []) = Some (Inr g)"
  then have p: "probe e port baud [] = (Some (Inr g), snd (probe e port baud []))"
    by (simp add: prod_eq_iff)
  from probe_success [OF p] have "snd (probe e port baud []) = probe_requests"
    by blast
  with p show ?thesis
    by (simp add: do_flash_unfold)
qed

lemma do_flash_probe_failed:
  assumes "\<And>g. fst (probe e port baud []) \<noteq> Some (Inr g)"
  shows "do_flash n e chip path port baud off [] =
           (map_option (\<lambda>x. case x of Inl err \<Rightarrow> Inl err | Inr g \<Rightarrow> Inr ()) (fst (probe e port baud [])),
            snd (probe e port baud []))"
proof -
  obtain res h1 where p: "probe e port baud [] = (res, h1)"
    by (cases "probe e port baud []")
  with assms show ?thesis
    by (auto simp: do_flash_unfold split: option.splits sum.splits)
qed

text \<open>
  The history of any run on a file that opened. When the probe phase succeeds it is that
  of the programming phase after the five probe requests; otherwise no begin or data
  request is issued.
\<close>

lemma do_flash_requests_ok:
  assumes "open_file e path = Some f" and "fst (probe e port baud []) = Some (Inr g)"
  shows "\<exists>k tail. k \<le> n \<and> (tail = [] \<or> tail = [FLASH_END Reboot]) \<and>
            snd (do_flash n e chip path port baud off []) =
              probe_requests @ begin_request f off
                # loop_requests k chip g (stream_at f 0) (buff_init e) 0 @ tail \<and>
            (transceive e probe_requests (begin_request f off) \<noteq> None \<and> 0 < n \<longrightarrow> 0 < k)"
  using program_requests [OF assms(1), of n chip off g probe_requests]
  by (simp add: do_flash_probe_ok [OF assms(2)])

lemma do_flash_requests_failed:
  assumes "\<And>g. fst (probe e port baud []) \<noteq> Some (Inr g)"
  shows "begin_requests (snd (do_flash n e chip path port baud off [])) = []"
    and "data_blocks (snd (do_flash n e chip path port baud off [])) = []"
  by (simp_all add: do_flash_probe_failed [OF assms] probe_no_data probe_no_begin)

lemma tail_cases:
  assumes "tail = [] \<or> tail = [FLASH_END Reboot]"
  shows "data_blocks (probe_requests @ begin_request f off # L @ tail) = data_blocks L"
    and "begin_requests (probe_requests @ begin_request f off # L @ tail) =
           (word_of_nat (length f), packet_size (word_of_nat (length f)), BLOCK_SIZE, off) # begin_requests L"
  using assms
  by (auto simp: data_blocks_append begin_requests_append data_blocks_probe_requests
        begin_requests_probe_requests begin_request_def)

lemma byte_counts_loop_any:
  "sum_list (byte_counts (loop_requests k chip g (stream_at f p) buff sq)) =
     min (length (loop_requests k chip g (stream_at f p) buff sq) * 4096) (length f - p)"
proof (induction k arbitrary: p buff sq)
  case 0
  then show ?case by (simp add: byte_counts_def)
next
  case (Suc k)
  show ?case
  proof (cases "length f - p < 4096")
    case True
    then have "unat (word_of_nat (length f - p) :: u32) = length f - p"
      by (simp add: unat_of_nat)
    with True show ?thesis
      by (simp add: loop_requests_Suc eof_stream_at read_stream_at loop_requests_eof byte_counts_def)
  next
    case False
    from Suc.IH [of "p + 4096"] False show ?thesis
      by (simp add: loop_requests_Suc eof_stream_at read_stream_at byte_counts_def)
  qed
qed

subsection \<open>Block count and byte sum in a run\<close>

text \<open>
  C1, as the code has it, for a run on an image \<open>f\<close> of \<open>S\<close> bytes with any target and
  any budget \<open>n\<close>.
  \<^item> At every moment the byte counts of the data requests issued so far add up to
    \<open>min (k * 4096) S\<close>, with \<open>k\<close> the number of those requests.
  \<^item> When the probe phase succeeds and \<open>S \<le> 2^32 - 4096 = 4294963200\<close>, exactly one begin
    request is issued and its block count is \<open>\<lceil>S / 4096\<rceil>\<close>.
  \<^item> When the probe phase succeeds, the target answers every request and the budget
    exceeds \<open>S div 4096\<close>, the run completes and the byte counts add up to \<open>S\<close>, whatever
    \<open>S\<close> is.
\<close>

theorem block_count_and_byte_sum:
  assumes "open_file e path = Some f"
  shows "sum_list (byte_counts (snd (do_flash n e chip path port baud off []))) =
           min (length (data_blocks (snd (do_flash n e chip path port baud off []))) * 4096) (length f) \<and>
         (fst (probe e port baud []) = Some (Inr g) \<and> length f \<le> 4294963200 \<longrightarrow>
            begin_block_counts (snd (do_flash n e chip path port baud off []))
              = [nat \<lceil>real (length f) / 4096\<rceil>]) \<and>
         (fst (probe e port baud []) = Some (Inr g) \<and> (\<forall>h q. transceive e h q \<noteq> None) \<and>
          length f div 4096 < n \<longrightarrow>
            fst (do_flash n e chip path port baud off []) = Some (Inr ()) \<and>
            sum_list (byte_counts (snd (do_flash n e chip path port baud off []))) = length f)"
proof (intro conjI impI)
  let ?tr = "snd (do_flash n e chip path port baud off [])"
  show "sum_list (byte_counts ?tr) = min (length (data_blocks ?tr) * 4096) (length f)"
  proof (cases "\<exists>g. fst (probe e port baud []) = Some (Inr g)")
    case False
    then have "data_blocks ?tr = []"
      by (intro do_flash_requests_failed(2)) blast
    then show ?thesis by (simp add: byte_counts_def)
  next
    case True
    then obtain g' where "fst (probe e port baud []) = Some (Inr g')" by blast
    from do_flash_requests_ok [OF assms this, of n chip off]
    obtain k tail where t: "tail = [] \<or> tail = [FLASH_END Reboot]"
      and tr: "?tr = probe_requests @ begin_request f off
                # loop_requests k chip g' (stream_at f 0) (buff_init e) 0 @ tail"
      by blast
    have "data_blocks ?tr = data_blocks (loop_requests k chip g' (stream_at f 0) (buff_init e) 0)"
      unfolding tr by (rule tail_cases(1) [OF t])
    with byte_counts_loop_any [of k chip g' f 0 "buff_init e" 0] show ?thesis
      by (simp add: byte_counts_def length_data_blocks_loop)
  qed
next
  let ?tr = "snd (do_flash n e chip path port baud off [])"
  assume a: "fst (probe e port baud []) = Some (Inr g) \<and> length f \<le> 4294963200"
  then have p: "fst (probe e port baud []) = Some (Inr g)" by simp
  from do_flash_requests_ok [OF assms p, of n chip off]
  obtain k tail where t: "tail = [] \<or> tail = [FLASH_END Reboot]"
      and tr: "?tr = probe_requests @ begin_request f off
                # loop_requests k chip g (stream_at f 0) (buff_init e) 0 @ tail"
    by blast
  have "begin_requests ?tr =
          [(word_of_nat (length f), packet_size (word_of_nat (length f)), BLOCK_SIZE, off)]"
    unfolding tr by (simp add: tail_cases(2) [OF t] begin_requests_loop)
  with a show "begin_block_counts ?tr = [nat \<lceil>real (length f) / 4096\<rceil>]"
    by (simp add: begin_block_counts_def unat_packet_size ceiling_blocks)
next
  assume a: "fst (probe e port baud []) = Some (Inr g) \<and> (\<forall>h q. transceive e h q \<noteq> None) \<and>
          length f div 4096 < n"
  then have dev: "\<And>h q. transceive e h q \<noteq> None" and n: "length f div 4096 < n"
    by simp_all
  from a have "do_flash n e chip path port baud off [] = program n e chip path off g probe_requests"
    by (simp add: do_flash_probe_ok)
  with program_completes [OF dev assms n, of chip off g probe_requests]
  have run: "do_flash n e chip path port baud off [] =
      (Some (Inr ()),
       probe_requests @ begin_request f off # loop_requests n chip g (stream_at f 0) (buff_init e) 0 @ [FLASH_END Reboot])"
    by simp
  then show "fst (do_flash n e chip path port baud off []) = Some (Inr ())"
    by simp
  from byte_counts_loop [of f 0 n chip g "buff_init e" 0] n
  show "sum_list (byte_counts (snd (do_flash n e chip path port baud off []))) = length f"
    by (simp add: run byte_counts_def data_blocks_run)
qed

text \<open>The scenario of the specification: 10000 bytes, three blocks, a run that completes.\<close>

theorem block_count_and_byte_sum_witness:
  "fst (do_flash 3 bench ESP32C3 ''firmware.bin'' ''/dev/ttyUSB0'' 115200 0x10000 []) = Some (Inr ()) \<and>
   sum_list (byte_counts (snd (do_flash 3 bench ESP32C3 ''firmware.bin'' ''/dev/ttyUSB0'' 115200 0x10000 []))) = 10000 \<and>
   begin_block_counts (snd (do_flash 3 bench ESP32C3 ''firmware.bin'' ''/dev/ttyUSB0'' 115200 0x10000 [])) = [3]"
proof -
  have f: "open_file bench ''firmware.bin'' = Some (replicate 10000 0x55)"
    by (simp add: bench_def bench_files_def)
  have p: "fst (probe bench ''/dev/ttyUSB0'' 115200 []) = Some (Inr (0, 2, 3))"
    by (simp add: probe_bench)
  have dev: "\<forall>h q. transceive bench h q \<noteq> None"
    by (simp add: bench_def)
  from block_count_and_byte_sum [OF f, of 3 ESP32C3 "''/dev/ttyUSB0''" 115200 "0x10000" "(0, 2, 3)"] p dev
  show ?thesis by simp
qed

text \<open>
  C1 as stated fails above the bound \<open>2^32 - 4096\<close>: for an image of \<open>2^32 - 1\<close> bytes the sum
  \<^verbatim>\<open>file_size + BLOCK_SIZE - 1\<close> wraps around to 4094, so the begin request of a completed
  run carries block count 0, while \<open>\<lceil>4294967295 / 4096\<rceil> = 1048576\<close>.
\<close>

theorem block_count_overflow:
  "fst (do_flash 1048576 bench ESP32C3 ''huge.bin'' ''/dev/ttyUSB0'' 115200 0 []) = Some (Inr ()) \<and>
   begin_sizes (snd (do_flash 1048576 bench ESP32C3 ''huge.bin'' ''/dev/ttyUSB0'' 115200 0 [])) = [4294967295] \<and>
   begin_block_counts (snd (do_flash 1048576 bench ESP32C3 ''huge.bin'' ''/dev/ttyUSB0'' 115200 0 [])) = [0] \<and>
   nat \<lceil>(4294967295 :: real) / 4096\<rceil> = 1048576"
proof -
  have f: "bench_files ''huge.bin'' = Some (replicate 4294967295 0)"
    by (simp add: bench_files_def)
  have "length (replicate 4294967295 (0::u8)) div 4096 < 1048576" by simp
  from bench_run [OF f this, where chip = ESP32C3 and port = "''/dev/ttyUSB0''" and baud = 115200 and off = 0]
  show ?thesis
    by (simp add: begin_sizes_def begin_block_counts_def begin_requests_run packet_size_def BLOCK_SIZE_def)
qed

subsection \<open>Three runs on the bench\<close>

lemma packet_size_values:
  "packet_size 0 = 0" "packet_size 100 = 1" "packet_size 4096 = 1" "packet_size 10000 = 3"
  by (simp_all add: packet_size_def BLOCK_SIZE_def)

lemma loop_requests_empty:
  "loop_requests (Suc 0) chip g (stream_at [] 0) buff 0 =
     [FLASH_DATA 0 0 (set_binary_header chip buff (fst g) (fst (snd g)) (snd (snd g)))]"
  by (simp add: loop_requests_Suc eof_stream_at read_stream_at loop_requests_eof
        block_buffer_def store_chunk_def)

text \<open>
  C3 on the code: for a file of size 0 the begin request carries total size 0 and block
  count 0, and the loop then transmits one data request, with byte count 0 and sequence
  number 0, whose payload is the patched, never written buffer.
\<close>

theorem empty_file_sends_one_block:
  "do_flash 1 bench ESP32C3 ''empty.bin'' ''/dev/ttyUSB0'' 115200 0 [] =
     (Some (Inr ()),
      [SYNC, READ_REG 0x40001000, SPI_ATTACH, SPI_SET_PARAMS, FLASH_READ_SLOW 0 16,
       FLASH_BEGIN 0 0 4096 0,
       FLASH_DATA 0 0 (set_binary_header ESP32C3 (replicate 4096 0) 0 2 3),
       FLASH_END Reboot])"
proof -
  have f: "bench_files ''empty.bin'' = Some []"
    by (simp add: bench_files_def)
  have n: "length ([] :: u8 list) div 4096 < 1" by simp
  have loop: "loop_requests 1 ESP32C3 (0, 2, 3) (stream_at [] 0) (replicate 4096 0) 0 =
          [FLASH_DATA 0 0 (set_binary_header ESP32C3 (replicate 4096 0) 0 2 3)]"
    by (simp add: loop_requests_empty)
  show ?thesis
    unfolding bench_run [OF f n] loop
    by (simp add: probe_requests_def begin_request_def packet_size_values BLOCK_SIZE_def)
qed

text \<open>
  C2 on the code: for a file of exactly 4096 bytes the begin request announces one
  block, and the loop transmits two data requests: the full block with sequence number
  0, then an empty one (byte count 0) with sequence number 1.
\<close>

theorem exact_multiple_sends_empty_block:
  "do_flash 2 bench ESP32C3 ''block.bin'' ''/dev/ttyUSB0'' 115200 0 [] =
     (Some (Inr ()),
      [SYNC, READ_REG 0x40001000, SPI_ATTACH, SPI_SET_PARAMS, FLASH_READ_SLOW 0 16,
       FLASH_BEGIN 4096 1 4096 0,
       FLASH_DATA 4096 0 (set_binary_header ESP32C3 (replicate 4096 0xAA) 0 2 3),
       FLASH_DATA 0 1 (set_binary_header ESP32C3 (replicate 4096 0xAA) 0 2 3),
       FLASH_END Reboot])"
proof -
  have f: "bench_files ''block.bin'' = Some (replicate 4096 0xAA)"
    by (simp add: bench_files_def)
  have n: "length (replicate 4096 (0xAA::u8)) div 4096 < 2" by simp
  have loop: "loop_requests 2 ESP32C3 (0, 2, 3) (stream_at (replicate 4096 0xAA) 0) (replicate 4096 0) 0 =
          [FLASH_DATA 4096 0 (set_binary_header ESP32C3 (replicate 4096 0xAA) 0 2 3),
           FLASH_DATA 0 1 (set_binary_header ESP32C3 (replicate 4096 0xAA) 0 2 3)]"
    by (simp add: numeral_2_eq_2 loop_requests_Suc eof_stream_at read_stream_at loop_requests_eof
          block_buffer_def store_chunk_def)
  show ?thesis
    unfolding bench_run [OF f n] loop
    by (simp add: probe_requests_def begin_request_def packet_size_values BLOCK_SIZE_def)
qed

text \<open>
  C5 on the code: the extension of a path is empty or starts with a period, so it never
  equals \<^verbatim>\<open>elf\<close> and the guard of line 37 never fires. A file named
  \<^verbatim>\<open>firmware.elf\<close> is flashed like any other: all exchanges are issued and the run
  completes.
\<close>

theorem elf_file_is_flashed:
  "extension ''firmware.elf'' = ''.elf'' \<and>
   do_flash 1 bench ESP32C3 ''firmware.elf'' ''/dev/ttyUSB0'' 115200 0 [] =
     (Some (Inr ()),
      [SYNC, READ_REG 0x40001000, SPI_ATTACH, SPI_SET_PARAMS, FLASH_READ_SLOW 0 16,
       FLASH_BEGIN 100 1 4096 0,
       FLASH_DATA 100 0 (set_binary_header ESP32C3 (replicate 100 0x7F @ replicate 3996 0) 0 2 3),
       FLASH_END Reboot])"
proof -
  have f: "bench_files ''firmware.elf'' = Some (replicate 100 0x7F)"
    by (simp add: bench_files_def)
  have n: "length (replicate 100 (0x7F::u8)) div 4096 < 1" by simp
  have loop: "loop_requests 1 ESP32C3 (0, 2, 3) (stream_at (replicate 100 0x7F) 0) (replicate 4096 0) 0 =
          [FLASH_DATA 100 0 (set_binary_header ESP32C3 (replicate 100 0x7F @ replicate 3996 0) 0 2 3)]"
    by (simp add: loop_requests_Suc eof_stream_at read_stream_at loop_requests_eof
          block_buffer_def store_chunk_def)
  have "extension ''firmware.elf'' = ''.elf''"
    by (simp add: extension_def filename_def)
  then show ?thesis
    unfolding bench_run [OF f n] loop
    by (simp add: probe_requests_def begin_request_def packet_size_values BLOCK_SIZE_def)
qed

subsection \<open>Sequence numbers\<close>


text \<open>
  C4 on the code: for the image of exactly 4096 bytes the begin request announces
  \<open>N = 1\<close> block, and the completed run transmits data requests with the sequence
  numbers 0 and 1, not 0 alone: the number \<open>N\<close> is transmitted too, with the empty block
  that follows the image.
\<close>

theorem exact_multiple_sequence_numbers:
  "fst (do_flash 2 bench ESP32C3 ''block.bin'' ''/dev/ttyUSB0'' 115200 0 []) = Some (Inr ()) \<and>
   begin_block_counts (snd (do_flash 2 bench ESP32C3 ''block.bin'' ''/dev/ttyUSB0'' 115200 0 [])) = [1] \<and>
   sequence_numbers (snd (do_flash 2 bench ESP32C3 ''block.bin'' ''/dev/ttyUSB0'' 115200 0 [])) = [0, 1]"
proof -
  have f: "bench_files ''block.bin'' = Some (replicate 4096 0xAA)"
    by (simp add: bench_files_def)
  have n: "length (replicate 4096 (0xAA::u8)) div 4096 < 2" by simp
  have loop: "loop_requests 2 ESP32C3 (0, 2, 3) (stream_at (replicate 4096 0xAA) 0) (replicate 4096 0) 0 =
          [FLASH_DATA 4096 0 (set_binary_header ESP32C3 (replicate 4096 0xAA) 0 2 3),
           FLASH_DATA 0 1 (set_binary_header ESP32C3 (replicate 4096 0xAA) 0 2 3)]"
    by (simp add: numeral_2_eq_2 loop_requests_Suc eof_stream_at read_stream_at loop_requests_eof
          block_buffer_def store_chunk_def)
  show ?thesis
    unfolding bench_run [OF f n] loop
    by (simp add: probe_requests_def begin_request_def packet_size_values BLOCK_SIZE_def
          begin_block_counts_def sequence_numbers_def)
qed

subsection \<open>A source file that cannot be opened\<close>

text \<open>
  C6, as the code has it. The file is opened only after the probe step and its state is
  never tested: when the file cannot be opened and the handshake, identification and
  probe exchanges succeed, the run goes on to issue the begin request, with total size
  0 and block count 0. No error is raised for the file.
\<close>

theorem unopenable_file_reaches_begin:
  assumes "open_file e path = None"
    and "fst (probe e port baud []) = Some (Inr g)"
  shows "\<exists>rest. snd (do_flash n e chip path port baud off []) =
           probe_requests @ FLASH_BEGIN 0 0 BLOCK_SIZE off # rest"
proof -
  from assms(2) have p: "probe e port baud [] = (Some (Inr g), snd (probe e port baud []))"
    by (simp add: prod_eq_iff)
  from probe_success [OF p] have h: "snd (probe e port baud []) = probe_requests"
    by blast
  have "packet_size 0 = 0"
    by (simp add: packet_size_def BLOCK_SIZE_def)
  with program_begins [of n e chip path off g probe_requests] assms(1)
  have "\<exists>rest. snd (program n e chip path off g probe_requests) =
           probe_requests @ FLASH_BEGIN 0 0 BLOCK_SIZE off # rest"
    by (simp add: measure_file_failed)
  moreover from p h have "do_flash n e chip path port baud off [] = program n e chip path off g probe_requests"
    by (simp add: do_flash_unfold)
  ultimately show ?thesis by simp
qed

text \<open>
  On the bench, with no file at the path.
\<close>

theorem unopenable_file_reaches_begin_witness:
  "\<exists>rest. snd (do_flash 2 bench ESP32C3 ''missing.bin'' ''/dev/ttyUSB0'' 115200 0 []) =
     probe_requests @ FLASH_BEGIN 0 0 BLOCK_SIZE 0 # rest"
proof -
  have "open_file bench ''missing.bin'' = None"
    by (simp add: bench_def bench_files_def)
  moreover have "fst (probe bench ''/dev/ttyUSB0'' 115200 []) = Some (Inr (0, 2, 3))"
    by (simp add: probe_bench)
  ultimately show ?thesis
    by (rule unopenable_file_reaches_begin)
qed

text \<open>
  C6 as stated fails: on the bench, with no file at the path, the run performs the five
  exchanges of handshake, identification and probe, then the begin request and data
  requests with byte count 0; after two iterations of the loop it is still running and
  has raised nothing.
\<close>

theorem missing_file_talks_to_target:
  "open_file bench ''missing.bin'' = None \<and>
   do_flash 2 bench ESP32C3 ''missing.bin'' ''/dev/ttyUSB0'' 115200 0 [] =
     (None,
      [SYNC, READ_REG 0x40001000, SPI_ATTACH, SPI_SET_PARAMS, FLASH_READ_SLOW 0 16,
       FLASH_BEGIN 0 0 4096 0,
       FLASH_DATA 0 0 (set_binary_header ESP32C3 (replicate 4096 0) 0 2 3),
       FLASH_DATA 0 1 (set_binary_header ESP32C3 (replicate 4096 0) 0 2 3)])"
proof -
  have nofile: "open_file bench ''missing.bin'' = None"
    by (simp add: bench_def bench_files_def)
  let ?failed = "\<lparr>content = [], pos = 0, eofbit = False, failbit = True\<rparr>"
  have rd: "read ?failed 4096 = ([], ?failed)"
    by (simp add: read_def good_def)
  have ne: "\<not> eof ?failed"
    by (simp add: eof_def)
  have dev: "\<And>h q. transceive bench h q = Some bench_response"
    by (simp add: bench_def)
  have buf: "buff_init bench = replicate 4096 0"
    by (simp add: bench_def)
  have loop: "flash_loop 2 bench ESP32C3 (0, 2, 3) ?failed (replicate 4096 0) 0 h =
          (None, h @ [FLASH_DATA 0 0 (set_binary_header ESP32C3 (replicate 4096 0) 0 2 3),
                      FLASH_DATA 0 1 (set_binary_header ESP32C3 (replicate 4096 0) 0 2 3)])" for h
    by (simp add: numeral_2_eq_2 flash_loop_Suc ne rd dev block_buffer_def store_chunk_def)
  have "program 2 bench ESP32C3 ''missing.bin'' 0 (0, 2, 3) probe_requests =
          (None, probe_requests @
             [FLASH_BEGIN 0 0 4096 0,
              FLASH_DATA 0 0 (set_binary_header ESP32C3 (replicate 4096 0) 0 2 3),
              FLASH_DATA 0 1 (set_binary_header ESP32C3 (replicate 4096 0) 0 2 3)])"
    unfolding program_unfold nofile measure_file_failed
    by (simp add: dev buf loop packet_size_values BLOCK_SIZE_def)
  with nofile show ?thesis
    by (simp add: do_flash_unfold probe_bench probe_requests_def)
qed

subsection \<open>An unknown chip tag\<close>

lemma FLASH_FN_MAP_None: "FLASH_FN_MAP tag = None \<longleftrightarrow> tag \<noteq> ''esp32c3''"
  by (simp add: FLASH_FN_MAP_def)

text \<open>
  C7. With a chip tag that is not a key of the registry, \<^verbatim>\<open>main\<close> issues no request
  and its outcome does not depend on the target, the file system or the iteration
  budget: the flashing function is not entered. When the command is \<^verbatim>\<open>flash\<close> and the
  offset option is given (so that the look-up is reached), the outcome is the
  \<^verbatim>\<open>std::out_of_range\<close> of \<^verbatim>\<open>at\<close>.
\<close>

theorem unknown_chip_no_exchange:
  assumes "FLASH_FN_MAP (vm_chip vm) = None"
  shows "snd (main n e vm h) = h \<and>
         (\<forall>n' e'. main n' e' vm h = main n e vm h) \<and>
         (vm_command vm = Some ''flash'' \<and> \<not> vm_help vm \<and> vm_offset vm \<noteq> None \<longrightarrow>
            main n e vm h = (Some (Inl OutOfRange), h))"
  using assms
  by (auto simp: main_def parse_command_def return_act_def throw_act_def Let_def
           split: option.splits CommandLineOption.splits prod.splits if_splits)

text \<open>
  On the bench, the tag \<^verbatim>\<open>esp8266\<close>.
\<close>

theorem unknown_chip_no_exchange_witness:
  "vm_chip bench_vm = ''esp8266'' \<and>
   main 3 bench bench_vm [] = (Some (Inl OutOfRange), [])"
proof -
  have "FLASH_FN_MAP (vm_chip bench_vm) = None"
    by (simp add: FLASH_FN_MAP_None bench_vm_def)
  from unknown_chip_no_exchange [OF this, of 3 bench "[]"] show ?thesis
    by (simp add: bench_vm_def)
qed

subsection \<open>The magic number assertion\<close>

lemma flash_loop_error:
  "fst (flash_loop n e chip g fs buff sq h) = Some (Inl err) \<Longrightarrow> err = TransportError"
proof (induction n arbitrary: fs buff sq h)
  case 0
  then show ?case by (simp split: if_splits)
next
  case (Suc n)
  show ?case
  proof (cases "eof fs")
    case True
    with Suc.prems show ?thesis by (simp add: flash_loop_eof)
  next
    case False
    with Suc.prems Suc.IH show ?thesis
      by (auto simp: flash_loop_Suc Let_def split: option.splits)
  qed
qed

lemma program_error:
  assumes "fst (program n e chip path off g h) = Some (Inl err)"
  shows "err = TransportError"
proof -
  let ?ms = "measure_file (ifstream_open (open_file e path))"
  let ?req = "FLASH_BEGIN (fst ?ms) (packet_size (fst ?ms)) BLOCK_SIZE off"
  obtain res h1 where loop: "flash_loop n e chip g (snd ?ms) (buff_init e) 0 (h @ [?req]) = (res, h1)"
    by (cases "flash_loop n e chip g (snd ?ms) (buff_init e) 0 (h @ [?req])")
  with flash_loop_error [of n e chip g "snd ?ms" "buff_init e" 0 "h @ [?req]"]
  have "res = Some (Inl err') \<Longrightarrow> err' = TransportError" for err'
    by simp
  with assms loop show ?thesis
    by (auto simp: program_unfold Let_def split: option.splits sum.splits)
qed

lemma probe_assertion:
  assumes "probe_prelude e port baud" and "probe_response e = Some r" and "resp_data r \<noteq> []"
    and "\<not> NDEBUG e" and "resp_data r ! 0 \<noteq> ESP_MAGIC_NUMBER e"
  shows "probe e port baud [] = (Some (Inl AssertionFailure), probe_requests)"
  using assms
  by (auto simp: probe_prelude_def probe_def act_defs probe_requests_def probe_response_def
           split: option.splits)

lemma probe_no_assertion:
  assumes "probe_response e = Some r" and "NDEBUG e \<or> resp_data r ! 0 = ESP_MAGIC_NUMBER e"
  shows "fst (probe e port baud []) \<noteq> Some (Inl AssertionFailure)"
  using assms
  by (auto simp: probe_def act_defs probe_response_def split: option.splits if_splits)

text \<open>
  C10. Take a run that gets as far as the flash read of the probe step and a response
  \<open>r\<close> to it with at least one byte. If the first byte differs from the magic number
  and assertions are compiled in (\<^verbatim>\<open>NDEBUG\<close> not defined), the run stops with the
  assertion failure right after the five probe exchanges: nothing is written to the
  target. If the first byte is the magic number, the run never ends in the assertion
  failure, whatever happens later.
\<close>

theorem magic_number_assertion:
  assumes "probe_prelude e port baud" and "probe_response e = Some r" and "resp_data r \<noteq> []"
  shows "(\<not> NDEBUG e \<and> resp_data r ! 0 \<noteq> ESP_MAGIC_NUMBER e \<longrightarrow>
            do_flash n e chip path port baud off [] = (Some (Inl AssertionFailure), probe_requests)) \<and>
         (resp_data r ! 0 = ESP_MAGIC_NUMBER e \<longrightarrow>
            fst (do_flash n e chip path port baud off []) \<noteq> Some (Inl AssertionFailure))"
proof (intro conjI impI)
  assume "\<not> NDEBUG e \<and> resp_data r ! 0 \<noteq> ESP_MAGIC_NUMBER e"
  with probe_assertion [OF assms] show
    "do_flash n e chip path port baud off [] = (Some (Inl AssertionFailure), probe_requests)"
    by (simp add: do_flash_unfold)
next
  assume magic: "resp_data r ! 0 = ESP_MAGIC_NUMBER e"
  obtain res h1 where p: "probe e port baud [] = (res, h1)"
    by (cases "probe e port baud []")
  with probe_no_assertion [OF assms(2), of port baud] magic
  have res: "res \<noteq> Some (Inl AssertionFailure)" by simp
  show "fst (do_flash n e chip path port baud off []) \<noteq> Some (Inl AssertionFailure)"
  proof
    assume a: "fst (do_flash n e chip path port baud off []) = Some (Inl AssertionFailure)"
    show False
    proof (cases res)
      case None
      with a p show False by (simp add: do_flash_unfold)
    next
      case (Some x)
      show False
      proof (cases x)
        case (Inl err)
        with Some a p res show False by (simp add: do_flash_unfold)
      next
        case (Inr g)
        with Some a p have "fst (program n e chip path off g h1) = Some (Inl AssertionFailure)"
          by (simp add: do_flash_unfold)
        from program_error [OF this] show False by simp
      qed
    qed
  qed
qed

text \<open>
  On the bench the header of the target passes the assertion; with an erased flash the
  run stops after the probe exchanges.
\<close>

theorem magic_number_assertion_witness:
  "resp_data bench_response ! 0 = ESP_MAGIC_NUMBER bench \<and>
   fst (do_flash 3 bench ESP32C3 ''firmware.bin'' ''/dev/ttyUSB0'' 115200 0 []) \<noteq> Some (Inl AssertionFailure) \<and>
   do_flash 3 bench_blank ESP32C3 ''firmware.bin'' ''/dev/ttyUSB0'' 115200 0 [] =
     (Some (Inl AssertionFailure), probe_requests)"
proof -
  have pre: "probe_prelude bench ''/dev/ttyUSB0'' 115200"
    by (simp add: probe_prelude_def bench_def)
  have resp: "probe_response bench = Some bench_response"
    by (simp add: probe_response_def bench_def)
  have ne: "resp_data bench_response \<noteq> []"
    by (simp add: bench_response_def)
  have magic: "resp_data bench_response ! 0 = ESP_MAGIC_NUMBER bench"
    by (simp add: bench_response_def bench_def)
  let ?blank = "\<lparr>resp_value = 0x1B31506F, resp_data = replicate 16 0xFF\<rparr> :: response"
  have pre': "probe_prelude bench_blank ''/dev/ttyUSB0'' 115200"
    by (simp add: probe_prelude_def bench_blank_def bench_def)
  have resp': "probe_response bench_blank = Some ?blank"
    by (simp add: probe_response_def bench_blank_def)
  have ne': "resp_data ?blank \<noteq> []"
    by simp
  have bad: "\<not> NDEBUG bench_blank \<and> resp_data ?blank ! 0 \<noteq> ESP_MAGIC_NUMBER bench_blank"
    by (simp add: bench_blank_def bench_def)
  from magic_number_assertion [OF pre resp ne, of 3 ESP32C3 "''firmware.bin''" 0] magic
       magic_number_assertion [OF pre' resp' ne', of 3 ESP32C3 "''firmware.bin''" 0] bad
  show ?thesis by simp
qed

subsection \<open>The payloads of the data requests\<close>






lemma payloads_run:
  "payloads (probe_requests @ begin_request f off # loop_requests n chip g fs buff sq @ [FLASH_END Reboot])
     = payloads (loop_requests n chip g fs buff sq)"
  by (simp add: payloads_def data_blocks_run)

lemma sequence_numbers_run:
  "sequence_numbers (probe_requests @ begin_request f off # loop_requests n chip g fs buff sq @ [FLASH_END Reboot])
     = sequence_numbers (loop_requests n chip g fs buff sq)"
  by (simp add: sequence_numbers_def data_blocks_run)


subsection \<open>The header patch in a run\<close>











end
